theory Spec2Isabelle
  imports Main
begin

section \<open>Python strings and built-ins used by \<open>oec/__main__.py\<close>\<close>

text \<open>
  A Python \<open>str\<close> is modelled as a \<open>string\<close>: each \<open>char\<close> stands for one code point
  below 256 (the Latin-1 range), so \<open>length\<close> counts code points as Python's \<open>len\<close> does.
\<close>

definition py_startswith :: "string \<Rightarrow> string \<Rightarrow> bool" where
  \<comment> \<open>\<open>s.startswith(p)\<close>\<close>
  "py_startswith s p = (take (length p) s = p)"

definition py_slice :: "nat \<Rightarrow> nat \<Rightarrow> string \<Rightarrow> string" where
  \<comment> \<open>\<open>s[i:j]\<close> for non-negative literal bounds; out-of-range bounds are clipped.\<close>
  "py_slice i j s = take (j - i) (drop i s)"

definition py_split1 :: "char \<Rightarrow> string \<Rightarrow> string list" where
  \<comment> \<open>\<open>s.split(c, 1)\<close>: at most one split, at the first occurrence of \<open>c\<close>.\<close>
  "py_split1 c s =
     (if c \<in> set s
      then [takeWhile (\<lambda>x. x \<noteq> c) s, tl (dropWhile (\<lambda>x. x \<noteq> c) s)]
      else [s])"

definition py_rsplit1 :: "char \<Rightarrow> string \<Rightarrow> string list" where
  \<comment> \<open>\<open>s.rsplit(c, 1)\<close>: at most one split, at the last occurrence of \<open>c\<close>.\<close>
  "py_rsplit1 c s =
     (if c \<in> set s
      then [rev (tl (dropWhile (\<lambda>x. x \<noteq> c) (rev s))), rev (takeWhile (\<lambda>x. x \<noteq> c) (rev s))]
      else [s])"

fun py_split :: "char \<Rightarrow> string \<Rightarrow> string list" where
  \<comment> \<open>\<open>s.split(c)\<close>: split at every occurrence of \<open>c\<close>; the empty string gives \<open>['']\<close>.\<close>
  "py_split c [] = [[]]"
| "py_split c (x # xs) =
     (if x = c then [] # py_split c xs
      else (case py_split c xs of
              [] \<Rightarrow> [[x]]
            | w # ws \<Rightarrow> (x # w) # ws))"

subsection \<open>\<open>int(str)\<close>\<close>

text \<open>
  CPython's \<open>int(s)\<close> in base 10: skip leading white space, read an optional sign, then
  digits in which single underscores may separate two digits, skip trailing white space,
  and require the end of the string. Anything else is a \<open>ValueError\<close>, here \<open>None\<close>.
  Among the code points below 256 the white space accepted is TAB, LF, VT, FF, CR, the
  space, NEL (133) and the no-break space (160); the only decimal digits are 0 to 9.
  Interpreters with the integer string conversion limit also raise \<open>ValueError\<close> when the
  literal has more than \<open>max_str_digits\<close> digits (the limit applies above 640 digits only,
  and 0 switches it off).
\<close>

definition int_isspace :: "char \<Rightarrow> bool" where
  "int_isspace c = ((of_char c :: nat) \<in> {9, 10, 11, 12, 13, 32, 133, 160})"

definition is_digit :: "char \<Rightarrow> bool" where
  "is_digit c = (48 \<le> (of_char c :: nat) \<and> (of_char c :: nat) \<le> 57)"

definition digit_value :: "char \<Rightarrow> int" where
  "digit_value c = int (of_char c - 48)"

fun scan_digits :: "int \<Rightarrow> nat \<Rightarrow> bool \<Rightarrow> string \<Rightarrow> (int \<times> nat \<times> string) option" where
  \<comment> \<open>accumulated value, number of digits seen, whether the previous character was an
      underscore, rest of the input; the result carries the unread rest.\<close>
  "scan_digits acc n prev_us [] = (if prev_us then None else Some (acc, n, []))"
| "scan_digits acc n prev_us (c # cs) =
     (if c = CHR ''_'' then (if prev_us then None else scan_digits acc n True cs)
      else if is_digit c then scan_digits (10 * acc + digit_value c) (Suc n) False cs
      else if prev_us then None
      else Some (acc, n, c # cs))"

definition py_int :: "nat \<Rightarrow> string \<Rightarrow> int option" where
  "py_int max_str_digits s =
     (let s1 = dropWhile int_isspace s;
          (sign, s2) = (case s1 of
                          [] \<Rightarrow> (1, s1)
                        | c # r \<Rightarrow> if c = CHR ''+'' then (1, r)
                                   else if c = CHR ''-'' then (- 1, r)
                                   else (1, s1))
      in if take 1 s2 = ''_'' then None
         else (case scan_digits 0 0 False s2 of
                 None \<Rightarrow> None
               | Some (v, n, rest) \<Rightarrow>
                   if n = 0 then None
                   else if 640 < n \<and> 0 < max_str_digits \<and> max_str_digits < n then None
                   else if dropWhile int_isspace rest \<noteq> [] then None
                   else Some (sign * v)))"

definition int_char :: "char \<Rightarrow> bool" where
  \<comment> \<open>the characters that can occur in a string \<open>int\<close> accepts\<close>
  "int_char c = (int_isspace c \<or> is_digit c \<or> c = CHR ''_'' \<or> c = CHR ''+'' \<or> c = CHR ''-'')"

section \<open>Effects: log records, collaborator calls, exceptions\<close>

datatype level = INFO | WARNING

datatype 'c event = Log level string | Call 'c

datatype exn =
    UnsupportedDeviceError string
  | ValueError string
  | ArgumentTypeError string
  | ParserExit string   \<comment> \<open>\<open>parser.error(msg)\<close>: argparse prints \<open>msg\<close> and exits with status 2\<close>
  | LookupError
  | Raised string       \<comment> \<open>any other exception raised by a collaborator\<close>

type_synonym ('c, 'a) run = "'c event list \<times> (exn + 'a)"

definition ret :: "'a \<Rightarrow> ('c, 'a) run" where
  "ret a = ([], Inr a)"

definition raise :: "exn \<Rightarrow> ('c, 'a) run" where
  "raise e = ([], Inl e)"

definition logger_info :: "string \<Rightarrow> ('c, unit) run" where
  "logger_info msg = ([Log INFO msg], Inr ())"

definition logger_warning :: "string \<Rightarrow> ('c, unit) run" where
  "logger_warning msg = ([Log WARNING msg], Inr ())"

definition call :: "'c \<Rightarrow> exn + 'a \<Rightarrow> ('c, 'a) run" where
  \<comment> \<open>a call of a collaborator: the call is recorded, its outcome is passed on\<close>
  "call c r = ([Call c], r)"

definition bind :: "('c, 'a) run \<Rightarrow> ('a \<Rightarrow> ('c, 'b) run) \<Rightarrow> ('c, 'b) run" where
  \<comment> \<open>sequencing: an exception ends the run, keeping what happened before it\<close>
  "bind m f =
     (case m of
        (t, Inl e) \<Rightarrow> (t, Inl e)
      | (t, Inr a) \<Rightarrow> (case f a of (t', r) \<Rightarrow> (t @ t', r)))"

section \<open>The address parser\<close>

record args =
  emulator :: string
  host :: string
  port :: "int option"
  device_names :: "string list option"
  character_encoding :: string
  command :: string
  command_args :: "string list"

definition parse_tn3270_host_args ::
  "nat \<Rightarrow> 'm args_scheme \<Rightarrow> (unit, string \<times> int \<times> string list option) run" where
  "parse_tn3270_host_args max_str_digits args =
     (let elements = py_rsplit1 CHR '':'' (host args) in
      bind (if 1 < length elements
            then (case py_int max_str_digits (elements ! 1) of
                    Some p \<Rightarrow> ret (Some p)
                  | None \<Rightarrow> raise (ParserExit (''argument host: invalid port value: '' @ elements ! 1)))
            else ret None)
       (\<lambda>port1.
      bind (case port args of
              Some legacy \<Rightarrow>
                (case port1 of
                   None \<Rightarrow> bind (logger_info ''The port argument is deprecated and will be removed in the future, use host:port instead.'')
                             (\<lambda>_. ret (Some legacy))
                 | Some p \<Rightarrow> bind (logger_warning ''The port argument is deprecated and will be removed in the future, port from host:port is being used.'')
                             (\<lambda>_. ret (Some p)))
            | None \<Rightarrow> ret port1)
       (\<lambda>port2.
      let port3 = (case port2 of None \<Rightarrow> 23 | Some p \<Rightarrow> p);
          elements' = py_split1 CHR ''@'' (elements ! 0);
          host' = last elements';
          device_names' = (if 1 < length elements' then Some (py_split CHR '','' (elements' ! 0)) else None)
      in ret (host', port3, device_names'))))"

definition tn3270_args :: "string \<Rightarrow> int option \<Rightarrow> args" where
  \<comment> \<open>the namespace \<open>main\<close> gets from argparse for \<open>tn3270 HOST [PORT]\<close> with the default
      code page; \<open>device_names\<close> is set only after parsing, the VT100 fields not at all\<close>
  "tn3270_args h p =
     \<lparr>emulator = ''tn3270'', host = h, port = p, device_names = None,
      character_encoding = ''ibm037'', command = [], command_args = []\<rparr>"

subsection \<open>The grammar of the spec\<close>

text \<open>
  Following the spec's words, not the code: an address is \<open>[lu[,lu...]@]host[:port]\<close>.
  \<open>address\<close> writes an address out from its parts; \<open>well_formed\<close> says that the parts
  can be read back: the port token holds no colon, an LU name holds neither comma nor
  at-sign, a host without LU names holds no at-sign, and parts before an absent port hold
  no colon.
\<close>

fun join :: "char \<Rightarrow> string list \<Rightarrow> string" where
  "join c [] = []"
| "join c [x] = x"
| "join c (x # y # ys) = x @ c # join c (y # ys)"

definition address :: "string list option \<Rightarrow> string \<Rightarrow> string option \<Rightarrow> string" where
  "address lus h p =
     (case lus of None \<Rightarrow> [] | Some ls \<Rightarrow> join CHR '','' ls @ ''@'')
     @ h
     @ (case p of None \<Rightarrow> [] | Some t \<Rightarrow> CHR '':'' # t)"

definition well_formed :: "string list option \<Rightarrow> string \<Rightarrow> string option \<Rightarrow> bool" where
  "well_formed lus h p =
     ((case lus of
         None \<Rightarrow> CHR ''@'' \<notin> set h
       | Some ls \<Rightarrow> ls \<noteq> [] \<and> (\<forall>l \<in> set ls. CHR '','' \<notin> set l \<and> CHR ''@'' \<notin> set l))
      \<and> (case p of
           None \<Rightarrow> CHR '':'' \<notin> set h
                  \<and> (case lus of None \<Rightarrow> True | Some ls \<Rightarrow> \<forall>l \<in> set ls. CHR '':'' \<notin> set l)
         | Some t \<Rightarrow> CHR '':'' \<notin> set t))"

section \<open>The keymap selector\<close>

text \<open>
  The three keymap tables are imported from \<open>keymap_3278_typewriter\<close>,
  \<open>keymap_ibm_typewriter\<close> and \<open>keymap_ibm_enhanced\<close>; the selector only hands one of
  them on, so a table is represented by its name.
\<close>

datatype keymap = KEYMAP_3278_TYPEWRITER | KEYMAP_IBM_TYPEWRITER | KEYMAP_IBM_ENHANCED

definition get_keymap :: "string \<Rightarrow> keymap" where
  "get_keymap keyboard_description =
     (if py_startswith keyboard_description ''3278'' then KEYMAP_3278_TYPEWRITER
      else if py_startswith keyboard_description ''IBM-TYPEWRITER'' then KEYMAP_IBM_TYPEWRITER
      else if py_startswith keyboard_description ''IBM-ENHANCED'' then KEYMAP_IBM_ENHANCED
      else KEYMAP_3278_TYPEWRITER)"

section \<open>The encoding validator\<close>

datatype codecs_call = Codecs_lookup string

definition get_character_encoding ::
  "(string \<Rightarrow> exn + 'codec) \<Rightarrow> string \<Rightarrow> (codecs_call, string) run" where
  \<comment> \<open>\<open>codecs_lookup\<close> is the interpreter's codec registry; \<open>LookupError\<close> is the only
      exception the handler catches\<close>
  "get_character_encoding codecs_lookup encoding =
     (case codecs_lookup encoding of
        Inl LookupError \<Rightarrow>
          ([Call (Codecs_lookup encoding)],
           Inl (ArgumentTypeError (''invalid encoding: '' @ encoding)))
      | Inl e \<Rightarrow> ([Call (Codecs_lookup encoding)], Inl e)
      | Inr _ \<Rightarrow> ([Call (Codecs_lookup encoding)], Inr encoding))"

section \<open>The device identifier\<close>

text \<open>
  \<open>TerminalType\<close> comes from the \<open>coax\<close> package, which has the two terminal classes
  CUT and DFT. A terminal identifier is whatever \<open>get_ids\<close> returns; the code reads its
  \<open>type\<close> only, so the record is left open for the other fields.
\<close>

datatype TerminalType = CUT | DFT

record terminal_id =
  type :: TerminalType

text \<open>
  Modelled from the spec: the class \<open>Terminal\<close> (\<open>oec/terminal.py\<close>) is the Device of
  the data model, the aggregate of link handle, device address, terminal identifier,
  extended identifier, feature set and keymap.
\<close>

datatype ('i, 'a, 't, 'f) terminal =
  Terminal 'i 'a "'t terminal_id_scheme" "string option" 'f keymap

text \<open>
  The collaborators of \<open>oec/device.py\<close> are parameters: each query may raise. The
  formatting of a terminal identifier, of a feature set and the name of a keymap, which
  the log lines print, are parameters too.
\<close>

record ('i, 'a, 't, 'f) device_module =
  get_ids :: "'i \<Rightarrow> 'a \<Rightarrow> exn + ('t terminal_id_scheme \<times> string option)"
  get_keyboard_description :: "'t terminal_id_scheme \<Rightarrow> string option \<Rightarrow> exn + string"
  get_features :: "'i \<Rightarrow> 'a \<Rightarrow> exn + 'f"
  str_terminal_id :: "'t terminal_id_scheme \<Rightarrow> string"
  str_features :: "'f \<Rightarrow> string"
  keymap_name :: "keymap \<Rightarrow> string"

datatype ('i, 'a) device_call =
    Get_ids 'i 'a
  | Get_keyboard_description
  | Get_features 'i 'a
  | New_Terminal

definition create_device ::
  "('i, 'a, 't, 'f) device_module \<Rightarrow> 'm args_scheme \<Rightarrow> 'i \<Rightarrow> 'a \<Rightarrow> 'p
     \<Rightarrow> (('i, 'a) device_call, ('i, 'a, 't, 'f) terminal) run" where
  "create_device dev args interface device_address poll_response =
     bind (call (Get_ids interface device_address) (get_ids dev interface device_address))
       (\<lambda>(terminal_id, extended_id).
     bind (logger_info (''Terminal ID = '' @ str_terminal_id dev terminal_id))
       (\<lambda>_.
     if type terminal_id \<noteq> CUT
     then raise (UnsupportedDeviceError ''Only CUT type terminals are supported'')
     else
     bind (logger_info (''Extended ID = '' @ (case extended_id of None \<Rightarrow> ''None'' | Some x \<Rightarrow> x)))
       (\<lambda>_.
     bind (case extended_id of
             None \<Rightarrow> ret ()
           | Some x \<Rightarrow> logger_info (''Model = IBM '' @ py_slice 2 6 x @ '' or equivalent''))
       (\<lambda>_.
     bind (call Get_keyboard_description (get_keyboard_description dev terminal_id extended_id))
       (\<lambda>keyboard_description.
     bind (logger_info (''Keyboard = '' @ keyboard_description))
       (\<lambda>_.
     bind (call (Get_features interface device_address) (get_features dev interface device_address))
       (\<lambda>features.
     bind (logger_info (''Features = '' @ str_features dev features))
       (\<lambda>_.
     let keymap = get_keymap keyboard_description in
     bind (logger_info (''Keymap = '' @ keymap_name dev keymap))
       (\<lambda>_.
     call New_Terminal
       (Inr (Terminal interface device_address terminal_id extended_id features keymap)))))))))))"

text \<open>
  For the proofs, the part of \<open>create_device\<close> that follows the check of the terminal type
  has a name of its own; \<open>create_device_unfold\<close> below shows that \<open>create_device\<close> is the
  identifier query, the log line, the check, and then this.
\<close>

definition create_device_cut ::
  "('i, 'a, 't, 'f) device_module \<Rightarrow> 'i \<Rightarrow> 'a \<Rightarrow> 't terminal_id_scheme \<Rightarrow> string option
     \<Rightarrow> (('i, 'a) device_call, ('i, 'a, 't, 'f) terminal) run" where
  "create_device_cut dev interface device_address terminal_id extended_id =
     bind (logger_info (''Extended ID = '' @ (case extended_id of None \<Rightarrow> ''None'' | Some x \<Rightarrow> x)))
       (\<lambda>_.
     bind (case extended_id of
             None \<Rightarrow> ret ()
           | Some x \<Rightarrow> logger_info (''Model = IBM '' @ py_slice 2 6 x @ '' or equivalent''))
       (\<lambda>_.
     bind (call Get_keyboard_description (get_keyboard_description dev terminal_id extended_id))
       (\<lambda>keyboard_description.
     bind (logger_info (''Keyboard = '' @ keyboard_description))
       (\<lambda>_.
     bind (call (Get_features interface device_address) (get_features dev interface device_address))
       (\<lambda>features.
     bind (logger_info (''Features = '' @ str_features dev features))
       (\<lambda>_.
     let keymap = get_keymap keyboard_description in
     bind (logger_info (''Keymap = '' @ keymap_name dev keymap))
       (\<lambda>_.
     call New_Terminal
       (Inr (Terminal interface device_address terminal_id extended_id features keymap)))))))))"

section \<open>The session factory\<close>

definition IS_VT100_AVAILABLE :: "string \<Rightarrow> bool" where
  \<comment> \<open>set at import time from \<open>os.name\<close>\<close>
  "IS_VT100_AVAILABLE os_name = (os_name = ''posix'')"

text \<open>
  Modelled from the spec: the classes \<open>TN3270Session\<close> (\<open>oec/tn3270.py\<close>) and
  \<open>VT100Session\<close> (\<open>oec/vt100.py\<close>) are sessions built from a device and the resolved
  parameters; a session is represented by the arguments of its constructor. The port is
  what \<open>args.port\<close> holds: the resolved integer once \<open>main\<close> has stored the parser's result.
\<close>

datatype 'd session =
    TN3270Session 'd string "int option" "string list option" string
  | VT100Session 'd "string list"

definition create_session :: "string \<Rightarrow> 'm args_scheme \<Rightarrow> 'd \<Rightarrow> ('d session, 'd session) run" where
  \<comment> \<open>the recorded call is the construction of the session\<close>
  "create_session os_name args device =
     (if emulator args = ''tn3270''
      then (let s = TN3270Session device (host args) (port args) (device_names args)
                      (character_encoding args)
            in call s (Inr s))
      else if emulator args = ''vt100'' \<and> IS_VT100_AVAILABLE os_name
      then (let host_command = command args # command_args args;
                s = VT100Session device host_command
            in call s (Inr s))
      else raise (ValueError ''Unsupported emulator''))"

section \<open>The lifecycle manager\<close>

text \<open>
  The module's global \<open>CONTROLLER\<close> is the state. A controller object is true in
  Python's \<open>if CONTROLLER:\<close>, \<open>None\<close> is false.
\<close>

record 'c globals =
  CONTROLLER :: "'c option"

text \<open>
  Modelled from the spec: \<open>stop\<close> of the class \<open>Controller\<close> (\<open>oec/controller.py\<close>)
  cancels the run loop and returns; the model records the call.
\<close>

datatype 'c controller_call = Stop 'c

definition initial_globals :: "'c globals" where
  \<comment> \<open>\<open>CONTROLLER = None\<close> at import time, before \<open>main\<close> starts a controller\<close>
  "initial_globals = \<lparr>CONTROLLER = None\<rparr>"

definition signal_handler ::
  "'n \<Rightarrow> 'f \<Rightarrow> 'c globals \<Rightarrow> 'c controller_call event list \<times> 'c globals" where
  "signal_handler number frame g =
     (case CONTROLLER g of
        Some c \<Rightarrow>
          ([Log INFO ''Stopping controller...'', Call (Stop c)], g\<lparr>CONTROLLER := None\<rparr>)
      | None \<Rightarrow> ([Log INFO ''Stopping controller...''], g))"

fun signal_handlers ::
  "'n list \<Rightarrow> 'c globals \<Rightarrow> 'c controller_call event list \<times> 'c globals" where
  \<comment> \<open>the handler run once for each signal number of the list, one delivery after the
      other with nothing in between\<close>
  "signal_handlers [] g = ([], g)"
| "signal_handlers (n # ns) g =
     (case signal_handler n () g of
        (t, g') \<Rightarrow> (case signal_handlers ns g' of (t', g'') \<Rightarrow> (t @ t', g'')))"

definition stops :: "'c controller_call event list \<Rightarrow> 'c list" where
  \<comment> \<open>the controllers \<open>stop\<close> was invoked on, in order\<close>
  "stops t = concat (map (\<lambda>e. case e of Call (Stop c) \<Rightarrow> [c] | Log _ _ \<Rightarrow> []) t)"

section \<open>Example arguments and collaborators\<close>

text \<open>
  Concrete inputs on which the theorems are instantiated: the namespace of a \<open>vt100\<close>
  command line, a codec registry that knows \<open>ibm037\<close> only and that, as the
  interpreter's \<open>codecs.lookup\<close> does, raises \<open>ValueError\<close> and not \<open>LookupError\<close> on a
  name with a NUL character in it, and a device module whose terminal answers with the
  given terminal type.
\<close>

definition vt100_args :: "string \<Rightarrow> string list \<Rightarrow> args" where
  "vt100_args c cs =
     \<lparr>emulator = ''vt100'', host = [], port = None, device_names = None,
      character_encoding = [], command = c, command_args = cs\<rparr>"

definition example_registry :: "string \<Rightarrow> exn + unit" where
  "example_registry n =
     (if CHR 0x00 \<in> set n then Inl (ValueError ''embedded null character'')
      else if n = ''ibm037'' then Inr ()
      else Inl LookupError)"

definition example_device_module :: "TerminalType \<Rightarrow> (unit, nat, unit, unit) device_module" where
  "example_device_module ty =
     \<lparr>get_ids = (\<lambda>_ _. Inr (\<lparr>type = ty\<rparr>, Some ''c1348300'')),
      get_keyboard_description = (\<lambda>_ _. Inr ''IBM-TYPEWRITER''),
      get_features = (\<lambda>_ _. Inr ()),
      str_terminal_id = (\<lambda>_. ''<TerminalId>''),
      str_features = (\<lambda>_. ''{}''),
      keymap_name = (\<lambda>_. ''keymap'')\<rparr>"

section \<open>Facts about the string operations\<close>

lemma py_rsplit1_absent: "c \<notin> set s \<Longrightarrow> py_rsplit1 c s = [s]"
  by (simp add: py_rsplit1_def)

lemma py_rsplit1_last: "c \<notin> set b \<Longrightarrow> py_rsplit1 c (a @ c # b) = [a, b]"
proof -
  assume nb: "c \<notin> set b"
  have all: "\<And>x. x \<in> set (rev b) \<Longrightarrow> x \<noteq> c" using nb by auto
  have "takeWhile (\<lambda>x. x \<noteq> c) (rev b @ c # rev a) = rev b @ takeWhile (\<lambda>x. x \<noteq> c) (c # rev a)"
    by (rule takeWhile_append2) (rule all)
  then have t: "takeWhile (\<lambda>x. x \<noteq> c) (rev b @ c # rev a) = rev b" by simp
  have d: "dropWhile (\<lambda>x. x \<noteq> c) (rev b @ c # rev a) = c # rev a"
    by (subst dropWhile_append2) (use all in auto)
  show ?thesis by (simp add: py_rsplit1_def t d)
qed

lemma py_split1_absent: "c \<notin> set s \<Longrightarrow> py_split1 c s = [s]"
  by (simp add: py_split1_def)

lemma py_split1_first: "c \<notin> set a \<Longrightarrow> py_split1 c (a @ c # b) = [a, b]"
proof -
  assume na: "c \<notin> set a"
  have all: "\<And>x. x \<in> set a \<Longrightarrow> x \<noteq> c" using na by auto
  have t: "takeWhile (\<lambda>x. x \<noteq> c) (a @ c # b) = a"
    using all by (simp add: takeWhile_append2)
  have d: "dropWhile (\<lambda>x. x \<noteq> c) (a @ c # b) = c # b"
    using all by (simp add: dropWhile_append2)
  show ?thesis by (simp add: py_split1_def t d)
qed

lemma py_split_nonempty: "py_split c s \<noteq> []"
  by (induction s) (auto split: list.splits)

lemma py_split_absent: "c \<notin> set s \<Longrightarrow> py_split c s = [s]"
  by (induction s) auto

lemma py_split_append: "c \<notin> set a \<Longrightarrow> py_split c (a @ c # b) = a # py_split c b"
  by (induction a) auto

lemma scan_digits_shape:
  "scan_digits acc n u s = Some (v, m, rest) \<Longrightarrow>
     \<exists>pre. s = pre @ rest \<and> (\<forall>x \<in> set pre. x = CHR ''_'' \<or> is_digit x)"
proof (induction acc n u s rule: scan_digits.induct)
  case (1 acc n u)
  then show ?case by (simp split: if_splits)
next
  case (2 acc n u c cs)
  show ?case
  proof (cases "c = CHR ''_''")
    case True
    with 2 obtain pre where "cs = pre @ rest" "\<forall>x \<in> set pre. x = CHR ''_'' \<or> is_digit x"
      by (auto split: if_splits)
    then show ?thesis using True by (intro exI[of _ "c # pre"]) simp
  next
    case nu: False
    show ?thesis
    proof (cases "is_digit c")
      case True
      with 2 nu obtain pre where "cs = pre @ rest" "\<forall>x \<in> set pre. x = CHR ''_'' \<or> is_digit x"
        by (auto split: if_splits)
      then show ?thesis using True by (intro exI[of _ "c # pre"]) simp
    next
      case False
      with 2 nu have "rest = c # cs" by (auto split: if_splits)
      then show ?thesis by (intro exI[of _ "[]"]) simp
    qed
  qed
qed

lemma dropWhile_nil_all: "dropWhile P xs = [] \<Longrightarrow> \<forall>x \<in> set xs. P x"
  by (induction xs) (auto split: if_splits)

lemma py_int_chars:
  assumes "py_int lim s = Some k"
  shows "\<forall>x \<in> set s. int_char x"
proof -
  from assms obtain s2 v n rest where
    hd: "dropWhile int_isspace s = s2 \<or> dropWhile int_isspace s = CHR ''+'' # s2
         \<or> dropWhile int_isspace s = CHR ''-'' # s2"
    and sc: "scan_digits 0 0 False s2 = Some (v, n, rest)"
    and tr: "dropWhile int_isspace rest = []"
    unfolding py_int_def Let_def
    by (auto split: list.splits if_splits option.splits prod.splits)
  from scan_digits_shape[OF sc] obtain pre where
    pre: "s2 = pre @ rest" "\<forall>x \<in> set pre. x = CHR ''_'' \<or> is_digit x" by blast
  have r: "\<forall>x \<in> set rest. int_char x"
    using dropWhile_nil_all[OF tr] by (simp add: int_char_def)
  have s2: "\<forall>x \<in> set s2. int_char x"
    using pre r by (auto simp: int_char_def)
  have d: "\<forall>x \<in> set (dropWhile int_isspace s). int_char x"
    using hd s2 by (auto simp: int_char_def)
  have t: "\<forall>x \<in> set (takeWhile int_isspace s). int_char x"
    by (auto simp: int_char_def dest: set_takeWhileD)
  have "s = takeWhile int_isspace s @ dropWhile int_isspace s" by simp
  then have "set s = set (takeWhile int_isspace s) \<union> set (dropWhile int_isspace s)"
    by (metis set_append)
  then show ?thesis using d t by blast
qed

lemma at_not_int_char: "\<not> int_char CHR ''@''"
  by (simp add: int_char_def int_isspace_def is_digit_def)

lemma colon_not_int_char: "\<not> int_char CHR '':''"
  by (simp add: int_char_def int_isspace_def is_digit_def)

lemma set_join: "set (join c ls) \<subseteq> insert c (\<Union>l \<in> set ls. set l)"
  by (induction c ls rule: join.induct) auto

lemma py_split_join:
  "ls \<noteq> [] \<Longrightarrow> \<forall>l \<in> set ls. c \<notin> set l \<Longrightarrow> py_split c (join c ls) = ls"
proof (induction c ls rule: join.induct)
  case (1 c)
  then show ?case by simp
next
  case (2 c x)
  then show ?case by (simp add: py_split_absent)
next
  case (3 c x y ys)
  then show ?case by (simp add: py_split_append)
qed

lemma scan_digits_all_digits:
  "\<forall>x \<in> set ds. is_digit x \<Longrightarrow>
     scan_digits acc n False ds
       = Some (foldl (\<lambda>a c. 10 * a + digit_value c) acc ds, n + length ds, [])"
proof (induction ds arbitrary: acc n)
  case Nil
  then show ?case by simp
next
  case (Cons d ds)
  have "d \<noteq> CHR ''_''" using Cons.prems by (auto simp: is_digit_def)
  then show ?case using Cons by simp
qed

lemma py_int_decimal:
  assumes ne: "ds \<noteq> []" and dig: "\<forall>x \<in> set ds. is_digit x"
    and lim: "length ds \<le> 640 \<or> lim = 0 \<or> length ds \<le> lim"
  shows "py_int lim ds = Some (foldl (\<lambda>a c. 10 * a + digit_value c) 0 ds)"
proof -
  obtain d r where ds: "ds = d # r" using ne by (cases ds) auto
  have d: "is_digit d" using dig ds by simp
  then have nsp: "\<not> int_isspace d" and np: "d \<noteq> CHR ''+''" and nm: "d \<noteq> CHR ''-''"
    and nu: "d \<noteq> CHR ''_''"
    by (auto simp: is_digit_def int_isspace_def)
  have dw: "dropWhile int_isspace ds = ds" using ds nsp by simp
  have sc: "scan_digits 0 0 False ds
       = Some (foldl (\<lambda>a c. 10 * a + digit_value c) 0 ds, length ds, [])"
    using scan_digits_all_digits[OF dig, of 0 0] by simp
  have t1: "take 1 ds \<noteq> ''_''" using ds nu by simp
  show ?thesis
    unfolding py_int_def Let_def dw
    using ds np nm t1 sc lim ne by (auto simp del: scan_digits.simps foldl_Cons)
qed

lemma parse_with_colon:
  assumes "CHR '':'' \<notin> set tok" and "host args = a @ CHR '':'' # tok"
  shows "parse_tn3270_host_args lim args =
     (case py_int lim tok of
        None \<Rightarrow> ([], Inl (ParserExit (''argument host: invalid port value: '' @ tok)))
      | Some p \<Rightarrow>
          ((case port args of
              None \<Rightarrow> []
            | Some _ \<Rightarrow> [Log WARNING ''The port argument is deprecated and will be removed in the future, port from host:port is being used.'']),
           Inr (last (py_split1 CHR ''@'' a), p,
                if 1 < length (py_split1 CHR ''@'' a)
                then Some (py_split CHR '','' (py_split1 CHR ''@'' a ! 0)) else None)))"
proof -
  have e: "py_rsplit1 CHR '':'' (host args) = [a, tok]"
    using assms by (simp add: py_rsplit1_last)
  show ?thesis
    unfolding parse_tn3270_host_args_def e Let_def
    by (simp add: bind_def ret_def raise_def logger_warning_def logger_info_def
          split: option.splits)
qed

lemma parse_without_colon:
  assumes "CHR '':'' \<notin> set (host args)"
  shows "parse_tn3270_host_args lim args =
     ((case port args of
         None \<Rightarrow> []
       | Some _ \<Rightarrow> [Log INFO ''The port argument is deprecated and will be removed in the future, use host:port instead.'']),
      Inr (last (py_split1 CHR ''@'' (host args)),
           (case port args of None \<Rightarrow> 23 | Some q \<Rightarrow> q),
           if 1 < length (py_split1 CHR ''@'' (host args))
           then Some (py_split CHR '','' (py_split1 CHR ''@'' (host args) ! 0)) else None))"
proof -
  have e: "py_rsplit1 CHR '':'' (host args) = [host args]"
    using assms by (simp add: py_rsplit1_absent)
  show ?thesis
    unfolding parse_tn3270_host_args_def e Let_def
    by (simp add: bind_def ret_def raise_def logger_warning_def logger_info_def
          split: option.splits)
qed

lemma host_segment:
  assumes "case lus of None \<Rightarrow> CHR ''@'' \<notin> set h
           | Some ls \<Rightarrow> ls \<noteq> [] \<and> (\<forall>l \<in> set ls. CHR '','' \<notin> set l \<and> CHR ''@'' \<notin> set l)"
  defines "seg \<equiv> (case lus of None \<Rightarrow> [] | Some ls \<Rightarrow> join CHR '','' ls @ ''@'') @ h"
  shows "last (py_split1 CHR ''@'' seg) = h"
    and "(if 1 < length (py_split1 CHR ''@'' seg)
          then Some (py_split CHR '','' (py_split1 CHR ''@'' seg ! 0)) else None) = lus"
proof -
  have "last (py_split1 CHR ''@'' seg) = h \<and>
        (if 1 < length (py_split1 CHR ''@'' seg)
          then Some (py_split CHR '','' (py_split1 CHR ''@'' seg ! 0)) else None) = lus"
  proof (cases lus)
    case None
    then show ?thesis using assms by (simp add: py_split1_absent)
  next
    case (Some ls)
    have na: "CHR ''@'' \<notin> set (join CHR '','' ls)"
      using set_join[of "CHR '',''" ls] assms(1) Some by auto
    have sp: "py_split1 CHR ''@'' seg = [join CHR '','' ls, h]"
      using py_split1_first[OF na, of h] Some by (simp add: seg_def)
    have "py_split CHR '','' (join CHR '','' ls) = ls"
      using assms(1) Some by (intro py_split_join) auto
    then show ?thesis using sp Some by simp
  qed
  then show "last (py_split1 CHR ''@'' seg) = h"
    and "(if 1 < length (py_split1 CHR ''@'' seg)
          then Some (py_split CHR '','' (py_split1 CHR ''@'' seg ! 0)) else None) = lus"
    by blast+
qed

lemma py_split1_present: "c \<in> set s \<Longrightarrow> length (py_split1 c s) = 2"
  by (simp add: py_split1_def)

lemma py_int_9999: "py_int lim ''9999'' = Some 9999"
  using py_int_decimal[of "''9999''" lim] by (simp add: is_digit_def digit_value_def)

lemma py_int_12: "py_int lim ''12'' = Some 12"
  using py_int_decimal[of "''12''" lim] by (simp add: is_digit_def digit_value_def)

lemma py_int_3270: "py_int lim ''3270'' = Some 3270"
  using py_int_decimal[of "''3270''" lim] by (simp add: is_digit_def digit_value_def)

lemma py_int_x: "py_int lim ''x'' = None"
  by (simp add: py_int_def int_isspace_def is_digit_def)

text \<open>
  The grammar leaves no input out: every string is the address of well-formed parts, so
  the round trip below describes the parser on all of its inputs.
\<close>

lemma join_Cons: "ws \<noteq> [] \<Longrightarrow> join c (w # ws) = w @ c # join c ws"
  by (cases ws) simp_all

lemma join_py_split: "join c (py_split c s) = s"
proof (induction s)
  case Nil
  then show ?case by simp
next
  case (Cons x xs)
  obtain w ws where sp: "py_split c xs = w # ws"
    using py_split_nonempty[of c xs] by (cases "py_split c xs") auto
  show ?case
  proof (cases "x = c")
    case True
    then show ?thesis using Cons by (simp add: join_Cons py_split_nonempty)
  next
    case False
    have "join c ((x # w) # ws) = x # join c (w # ws)" by (cases ws) simp_all
    then show ?thesis using False Cons sp by simp
  qed
qed

lemma py_split_parts: "l \<in> set (py_split c s) \<Longrightarrow> c \<notin> set l \<and> set l \<subseteq> set s"
proof (induction s arbitrary: l)
  case Nil
  then show ?case by simp
next
  case (Cons x xs)
  obtain w ws where sp: "py_split c xs = w # ws"
    using py_split_nonempty[of c xs] by (cases "py_split c xs") auto
  show ?case
  proof (cases "x = c")
    case True
    then show ?thesis using Cons by auto
  next
    case False
    then have "l = x # w \<or> l \<in> set ws" using Cons.prems sp by simp
    then show ?thesis
    proof
      assume "l = x # w"
      then show ?thesis using Cons.IH[of w] sp False by auto
    next
      assume "l \<in> set ws"
      then show ?thesis using Cons.IH[of l] sp by auto
    qed
  qed
qed

lemma address_complete: "\<exists>lus h p. well_formed lus h p \<and> s = address lus h p"
proof -
  obtain seg p where sp: "s = seg @ (case p of None \<Rightarrow> [] | Some t \<Rightarrow> CHR '':'' # t)"
    and p: "case p of None \<Rightarrow> CHR '':'' \<notin> set seg | Some t \<Rightarrow> CHR '':'' \<notin> set t"
  proof (cases "CHR '':'' \<in> set s")
    case True
    then obtain a t where "s = a @ CHR '':'' # t" "CHR '':'' \<notin> set t"
      using split_list_last[of "CHR '':''" s] by blast
    then show ?thesis using that[of a "Some t"] by simp
  next
    case False
    then show ?thesis using that[of s None] by simp
  qed
  show ?thesis
  proof (cases "CHR ''@'' \<in> set seg")
    case False
    have "well_formed None seg p" using False p by (simp add: well_formed_def split: option.splits)
    moreover have "s = address None seg p" using sp by (simp add: address_def)
    ultimately show ?thesis by blast
  next
    case True
    then obtain l h where lh: "seg = l @ CHR ''@'' # h" "CHR ''@'' \<notin> set l"
      using split_list_first[of "CHR ''@''" seg] by blast
    let ?ls = "py_split CHR '','' l"
    have parts: "\<forall>x \<in> set ?ls. CHR '','' \<notin> set x \<and> set x \<subseteq> set l"
      using py_split_parts[of _ "CHR '',''" l] by blast
    have wf: "well_formed (Some ?ls) h p"
      using parts lh p py_split_nonempty[of "CHR '',''" l]
      by (auto simp: well_formed_def split: option.splits)
    have "s = address (Some ?ls) h p"
      using sp lh by (simp add: address_def join_py_split)
    then show ?thesis using wf by blast
  qed
qed

subsection \<open>Claims about the address parser\<close>

text \<open>
  C2. For every input of the grammar \<open>[lu[,lu...]@]host[:port]\<close> the parser splits at the
  last colon to get the port token and at the first at-sign of the remainder to get the
  host and the LU names in their order: it returns the host, the integer value of the
  port token (or the legacy port, or 23, when there is no token) and the LU list, absent
  when no LU part was written. A port token that \<open>int\<close> rejects gives no result but the
  parser error that names the token. In particular \<open>lu1,lu2@host:9999\<close> gives host
  \<open>host\<close>, port 9999 and the LU list \<open>lu1\<close>, \<open>lu2\<close>.
\<close>

theorem parse_tn3270_host_args_grammar:
  assumes wf: "well_formed lus h p" and hst: "host args = address lus h p"
  shows "snd (parse_tn3270_host_args lim args) =
           (case p of
              None \<Rightarrow> Inr (h, (case port args of None \<Rightarrow> 23 | Some q \<Rightarrow> q), lus)
            | Some t \<Rightarrow>
                (case py_int lim t of
                   None \<Rightarrow> Inl (ParserExit (''argument host: invalid port value: '' @ t))
                 | Some n \<Rightarrow> Inr (h, n, lus)))
         \<and> parse_tn3270_host_args lim (tn3270_args ''lu1,lu2@host:9999'' None)
             = ([], Inr (''host'', 9999, Some [''lu1'', ''lu2'']))"
proof
  define seg where "seg = (case lus of None \<Rightarrow> [] | Some ls \<Rightarrow> join CHR '','' ls @ ''@'') @ h"
  have lu: "case lus of None \<Rightarrow> CHR ''@'' \<notin> set h
           | Some ls \<Rightarrow> ls \<noteq> [] \<and> (\<forall>l \<in> set ls. CHR '','' \<notin> set l \<and> CHR ''@'' \<notin> set l)"
    using wf by (simp add: well_formed_def)
  note hs = host_segment[OF lu, folded seg_def]
  show "snd (parse_tn3270_host_args lim args) =
           (case p of
              None \<Rightarrow> Inr (h, (case port args of None \<Rightarrow> 23 | Some q \<Rightarrow> q), lus)
            | Some t \<Rightarrow>
                (case py_int lim t of
                   None \<Rightarrow> Inl (ParserExit (''argument host: invalid port value: '' @ t))
                 | Some n \<Rightarrow> Inr (h, n, lus)))"
  proof (cases p)
    case None
    have "CHR '':'' \<notin> set seg"
    proof (cases lus)
      case None
      then show ?thesis using wf \<open>p = None\<close> by (simp add: well_formed_def seg_def)
    next
      case (Some ls)
      then show ?thesis using wf \<open>p = None\<close> set_join[of "CHR '',''" ls]
        by (auto simp: well_formed_def seg_def)
    qed
    moreover have "host args = seg" using hst None by (simp add: address_def seg_def)
    ultimately show ?thesis
      using parse_without_colon[of args lim] hs None by (auto split: if_splits)
  next
    case (Some t)
    have "CHR '':'' \<notin> set t" using wf Some by (simp add: well_formed_def)
    moreover have "host args = seg @ CHR '':'' # t"
      using hst Some by (simp add: address_def seg_def)
    ultimately show ?thesis
      using parse_with_colon[of t args seg lim] hs Some
      by (auto split: if_splits option.splits)
  qed
next
  have "parse_tn3270_host_args lim (tn3270_args ''lu1,lu2@host:9999'' None) =
     (case py_int lim ''9999'' of
        None \<Rightarrow> ([], Inl (ParserExit (''argument host: invalid port value: '' @ ''9999'')))
      | Some p \<Rightarrow>
          ((case port (tn3270_args ''lu1,lu2@host:9999'' None) of
              None \<Rightarrow> []
            | Some _ \<Rightarrow> [Log WARNING ''The port argument is deprecated and will be removed in the future, port from host:port is being used.'']),
           Inr (last (py_split1 CHR ''@'' ''lu1,lu2@host''), p,
                if 1 < length (py_split1 CHR ''@'' ''lu1,lu2@host'')
                then Some (py_split CHR '','' (py_split1 CHR ''@'' ''lu1,lu2@host'' ! 0)) else None)))"
    by (rule parse_with_colon) (simp_all add: tn3270_args_def)
  then show "parse_tn3270_host_args lim (tn3270_args ''lu1,lu2@host:9999'' None)
             = ([], Inr (''host'', 9999, Some [''lu1'', ''lu2'']))"
    by (simp add: py_int_9999 py_split1_def tn3270_args_def)
qed

theorem parse_tn3270_host_args_grammar_witness:
  "well_formed (Some [''a'', ''b'']) ''mvs'' (Some ''3270'')
   \<and> host (tn3270_args ''a,b@mvs:3270'' (Some 34))
       = address (Some [''a'', ''b'']) ''mvs'' (Some ''3270'')
   \<and> snd (parse_tn3270_host_args 4300 (tn3270_args ''a,b@mvs:3270'' (Some 34)))
       = Inr (''mvs'', 3270, Some [''a'', ''b''])
   \<and> well_formed None ''host'' (Some ''x'')
   \<and> host (tn3270_args ''host:x'' None) = address None ''host'' (Some ''x'')
   \<and> snd (parse_tn3270_host_args 4300 (tn3270_args ''host:x'' None))
       = Inl (ParserExit ''argument host: invalid port value: x'')"
proof -
  have w1: "well_formed (Some [''a'', ''b'']) ''mvs'' (Some ''3270'')"
    by (simp add: well_formed_def)
  have a1: "host (tn3270_args ''a,b@mvs:3270'' (Some 34))
       = address (Some [''a'', ''b'']) ''mvs'' (Some ''3270'')"
    by (simp add: tn3270_args_def address_def)
  have w2: "well_formed None ''host'' (Some ''x'')"
    by (simp add: well_formed_def)
  have a2: "host (tn3270_args ''host:x'' None) = address None ''host'' (Some ''x'')"
    by (simp add: tn3270_args_def address_def)
  show ?thesis
    using parse_tn3270_host_args_grammar[OF w1 a1, of 4300]
      parse_tn3270_host_args_grammar[OF w2 a2, of 4300] w1 a1 w2 a2
    by (simp add: py_int_3270 py_int_x)
qed

text \<open>
  C3. With a legacy port supplied: when the host string carries an embedded port value,
  that value is the resolved port and the notice, a warning, says that the port from
  \<open>host:port\<close> is used; when the host string carries no port, the legacy value is the
  resolved port and the notice, an information, says to use \<open>host:port\<close>. In particular
  \<open>host:12\<close> with legacy port 34 resolves to 12 and \<open>host\<close> with legacy port 34 to 34.
\<close>

theorem parse_tn3270_host_args_legacy_port:
  "(port args = Some legacy \<and> host args = a @ CHR '':'' # tok \<and> CHR '':'' \<notin> set tok
      \<and> py_int lim tok = Some p
     \<longrightarrow> (\<exists>h l. parse_tn3270_host_args lim args = ([Log WARNING ''The port argument is deprecated and will be removed in the future, port from host:port is being used.''], Inr (h, p, l))))
   \<and> (port args = Some legacy \<and> CHR '':'' \<notin> set (host args)
     \<longrightarrow> (\<exists>h l. parse_tn3270_host_args lim args = ([Log INFO ''The port argument is deprecated and will be removed in the future, use host:port instead.''], Inr (h, legacy, l))))
   \<and> parse_tn3270_host_args lim (tn3270_args ''host:12'' (Some 34)) =
        ([Log WARNING ''The port argument is deprecated and will be removed in the future, port from host:port is being used.''], Inr (''host'', 12, None))
   \<and> parse_tn3270_host_args lim (tn3270_args ''host'' (Some 34)) =
        ([Log INFO ''The port argument is deprecated and will be removed in the future, use host:port instead.''], Inr (''host'', 34, None))"
proof (intro conjI impI)
  assume "port args = Some legacy \<and> host args = a @ CHR '':'' # tok \<and> CHR '':'' \<notin> set tok
      \<and> py_int lim tok = Some p"
  then show "\<exists>h l. parse_tn3270_host_args lim args = ([Log WARNING ''The port argument is deprecated and will be removed in the future, port from host:port is being used.''], Inr (h, p, l))"
    using parse_with_colon[of tok args a lim] by simp
next
  assume "port args = Some legacy \<and> CHR '':'' \<notin> set (host args)"
  then show "\<exists>h l. parse_tn3270_host_args lim args = ([Log INFO ''The port argument is deprecated and will be removed in the future, use host:port instead.''], Inr (h, legacy, l))"
    using parse_without_colon[of args lim] by simp
next
  show "parse_tn3270_host_args lim (tn3270_args ''host:12'' (Some 34)) =
        ([Log WARNING ''The port argument is deprecated and will be removed in the future, port from host:port is being used.''], Inr (''host'', 12, None))"
    using parse_with_colon[of "''12''" "tn3270_args ''host:12'' (Some 34)" "''host''" lim]
    by (simp add: tn3270_args_def py_int_12 py_split1_def)
next
  show "parse_tn3270_host_args lim (tn3270_args ''host'' (Some 34)) =
        ([Log INFO ''The port argument is deprecated and will be removed in the future, use host:port instead.''], Inr (''host'', 34, None))"
    using parse_without_colon[of "tn3270_args ''host'' (Some 34)" lim]
    by (simp add: tn3270_args_def py_split1_def)
qed

theorem parse_tn3270_host_args_legacy_port_witness:
  "port (tn3270_args ''mvs:3270'' (Some 0)) = Some 0
   \<and> host (tn3270_args ''mvs:3270'' (Some 0)) = ''mvs'' @ CHR '':'' # ''3270''
   \<and> CHR '':'' \<notin> set ''3270'' \<and> py_int 4300 ''3270'' = Some 3270
   \<and> (\<exists>h l. parse_tn3270_host_args 4300 (tn3270_args ''mvs:3270'' (Some 0))
              = ([Log WARNING ''The port argument is deprecated and will be removed in the future, port from host:port is being used.''], Inr (h, 3270, l)))
   \<and> port (tn3270_args ''mvs'' (Some 0)) = Some 0
   \<and> CHR '':'' \<notin> set (host (tn3270_args ''mvs'' (Some 0)))
   \<and> (\<exists>h l. parse_tn3270_host_args 4300 (tn3270_args ''mvs'' (Some 0))
              = ([Log INFO ''The port argument is deprecated and will be removed in the future, use host:port instead.''], Inr (h, 0, l)))"
proof -
  have h1: "port (tn3270_args ''mvs:3270'' (Some 0)) = Some 0
      \<and> host (tn3270_args ''mvs:3270'' (Some 0)) = ''mvs'' @ CHR '':'' # ''3270''
      \<and> CHR '':'' \<notin> set ''3270'' \<and> py_int 4300 ''3270'' = Some 3270"
    by (simp add: tn3270_args_def py_int_3270)
  have h2: "port (tn3270_args ''mvs'' (Some 0)) = Some 0
      \<and> CHR '':'' \<notin> set (host (tn3270_args ''mvs'' (Some 0)))"
    by (simp add: tn3270_args_def)
  from parse_tn3270_host_args_legacy_port
         [where args = "tn3270_args ''mvs:3270'' (Some 0)" and legacy = 0 and a = "''mvs''"
            and tok = "''3270''" and lim = 4300 and p = 3270]
  have c1: "\<exists>h l. parse_tn3270_host_args 4300 (tn3270_args ''mvs:3270'' (Some 0))
              = ([Log WARNING ''The port argument is deprecated and will be removed in the future, port from host:port is being used.''], Inr (h, 3270, l))"
    using h1 by blast
  from parse_tn3270_host_args_legacy_port
         [where args = "tn3270_args ''mvs'' (Some 0)" and legacy = 0 and lim = 4300]
  have c2: "\<exists>h l. parse_tn3270_host_args 4300 (tn3270_args ''mvs'' (Some 0))
              = ([Log INFO ''The port argument is deprecated and will be removed in the future, use host:port instead.''], Inr (h, 0, l))"
    using h2 by blast
  show ?thesis using h1 h2 c1 c2 by blast
qed

text \<open>
  C8, as the spec has it, fails: a host string without a colon may still carry LU names.
  For \<open>lu@host\<close> with no legacy port the port is 23 but the LU list is present.
\<close>

theorem parse_tn3270_host_args_default_counterexample:
  "CHR '':'' \<notin> set (host (tn3270_args ''lu@host'' None))
   \<and> port (tn3270_args ''lu@host'' None) = None
   \<and> parse_tn3270_host_args 4300 (tn3270_args ''lu@host'' None)
       = ([], Inr (''host'', 23, Some [''lu'']))"
  using parse_without_colon[of "tn3270_args ''lu@host'' None" 4300]
  by (simp add: tn3270_args_def py_split1_def)

text \<open>
  C8, amended. For every host string without a colon and with no legacy port supplied
  the parser returns port 23 and logs nothing. When the string has no at-sign either, the
  host is the string itself and the LU list is absent; when it has one, the LU list is
  present.
\<close>

theorem parse_tn3270_host_args_default:
  assumes "CHR '':'' \<notin> set (host args)" and "port args = None"
  shows "(CHR ''@'' \<notin> set (host args)
            \<longrightarrow> parse_tn3270_host_args lim args = ([], Inr (host args, 23, None)))
       \<and> (CHR ''@'' \<in> set (host args)
            \<longrightarrow> (\<exists>h ls. parse_tn3270_host_args lim args = ([], Inr (h, 23, Some ls))))"
  using parse_without_colon[OF assms(1), of lim] assms(2)
  by (auto simp: py_split1_absent py_split1_present)

theorem parse_tn3270_host_args_default_witness:
  "CHR '':'' \<notin> set (host (tn3270_args ''host'' None))
   \<and> port (tn3270_args ''host'' None) = None
   \<and> CHR ''@'' \<notin> set (host (tn3270_args ''host'' None))
   \<and> parse_tn3270_host_args 4300 (tn3270_args ''host'' None)
       = ([], Inr (''host'', 23, None))"
proof -
  have h1: "CHR '':'' \<notin> set (host (tn3270_args ''host'' None))"
    by (simp add: tn3270_args_def)
  have h2: "port (tn3270_args ''host'' None) = None"
    by (simp add: tn3270_args_def)
  have h3: "CHR ''@'' \<notin> set (host (tn3270_args ''host'' None))"
    by (simp add: tn3270_args_def)
  have "parse_tn3270_host_args 4300 (tn3270_args ''host'' None)
          = ([], Inr (host (tn3270_args ''host'' None), 23, None))"
    using parse_tn3270_host_args_default[OF h1 h2, of 4300] h3 by blast
  then show ?thesis using h1 h2 h3 by (simp add: tn3270_args_def)
qed

text \<open>
  C10, as stated, fails: an input with an at-sign whose port token is not an integer
  gives no LU list at all, the parser exits with its error.
\<close>

theorem parse_tn3270_host_args_lu_present_counterexample:
  "CHR ''@'' \<in> set (host (tn3270_args ''lu@host:x'' None))
   \<and> parse_tn3270_host_args 4300 (tn3270_args ''lu@host:x'' None)
       = ([], Inl (ParserExit ''argument host: invalid port value: x''))"
  using parse_with_colon[of "''x''" "tn3270_args ''lu@host:x'' None" "''lu@host''" 4300]
  by (simp add: tn3270_args_def py_int_x)

text \<open>
  C10, amended. For every input string that contains an at-sign, the parser either
  exits with the error for a port token that is not an integer, or returns a present LU
  list, which is never the empty list. The input \<open>@host\<close> gives host \<open>host\<close> and the LU
  list holding the empty string alone.
\<close>

theorem parse_tn3270_host_args_lu_present:
  assumes at: "CHR ''@'' \<in> set (host args)"
  shows "(case snd (parse_tn3270_host_args lim args) of
            Inr (h, p, l) \<Rightarrow> (\<exists>ls. l = Some ls \<and> ls \<noteq> [])
          | Inl e \<Rightarrow> (\<exists>a tok. host args = a @ CHR '':'' # tok \<and> CHR '':'' \<notin> set tok
                        \<and> py_int lim tok = None
                        \<and> e = ParserExit (''argument host: invalid port value: '' @ tok)))
       \<and> parse_tn3270_host_args lim (tn3270_args ''@host'' None)
           = ([], Inr (''host'', 23, Some [[]]))"
proof
  show "parse_tn3270_host_args lim (tn3270_args ''@host'' None)
           = ([], Inr (''host'', 23, Some [[]]))"
    using parse_without_colon[of "tn3270_args ''@host'' None" lim]
    by (simp add: tn3270_args_def py_split1_def)
next
  show "case snd (parse_tn3270_host_args lim args) of
            Inr (h, p, l) \<Rightarrow> (\<exists>ls. l = Some ls \<and> ls \<noteq> [])
          | Inl e \<Rightarrow> (\<exists>a tok. host args = a @ CHR '':'' # tok \<and> CHR '':'' \<notin> set tok
                        \<and> py_int lim tok = None
                        \<and> e = ParserExit (''argument host: invalid port value: '' @ tok))"
  proof (cases "CHR '':'' \<in> set (host args)")
    case False
    then show ?thesis
      using parse_without_colon[of args lim] at
      by (simp add: py_split1_present py_split_nonempty)
  next
    case True
    then obtain a tok where d: "host args = a @ CHR '':'' # tok" "CHR '':'' \<notin> set tok"
      using split_list_last[of "CHR '':''" "host args"] by blast
    note pc = parse_with_colon[OF d(2) d(1), of lim]
    show ?thesis
    proof (cases "py_int lim tok")
      case None
      then show ?thesis using pc d by auto
    next
      case (Some n)
      have "CHR ''@'' \<notin> set tok"
        using py_int_chars[OF Some] at_not_int_char by blast
      then have "CHR ''@'' \<in> set a" using at d(1) by auto
      then show ?thesis using pc Some
        by (simp add: py_split1_present py_split_nonempty)
    qed
  qed
qed

theorem parse_tn3270_host_args_lu_present_witness:
  "CHR ''@'' \<in> set (host (tn3270_args ''a,b@mvs:3270'' None))
   \<and> (\<exists>h p ls. snd (parse_tn3270_host_args 4300 (tn3270_args ''a,b@mvs:3270'' None))
                  = Inr (h, p, Some ls) \<and> ls \<noteq> [])"
proof -
  have h1: "CHR ''@'' \<in> set (host (tn3270_args ''a,b@mvs:3270'' None))"
    by (simp add: tn3270_args_def)
  have r: "snd (parse_tn3270_host_args 4300 (tn3270_args ''a,b@mvs:3270'' None))
             = Inr (''mvs'', 3270, Some [''a'', ''b''])"
    using parse_with_colon[of "''3270''" "tn3270_args ''a,b@mvs:3270'' None" "''a,b@mvs''" 4300]
    by (simp add: tn3270_args_def py_int_3270 py_split1_def)
  show ?thesis
    using parse_tn3270_host_args_lu_present[OF h1, of 4300] h1 r by simp
qed

section \<open>The keymap selector: claim C6\<close>

lemma py_startswith_append: "py_startswith (p @ r) p"
  by (simp add: py_startswith_def)

lemma py_startswith_shorter:
  assumes "py_startswith d p" and "length q \<le> length p"
  shows "py_startswith d q = (take (length q) p = q)"
proof -
  have "take (length q) (take (length p) d) = take (length q) d"
    using assms(2) by (simp add: min_def)
  moreover have "take (length p) d = p" using assms(1) by (simp add: py_startswith_def)
  ultimately have "take (length q) d = take (length q) p" by simp
  then show ?thesis by (simp add: py_startswith_def)
qed

lemma ibm_typewriter_not_3278: "py_startswith d ''IBM-TYPEWRITER'' \<Longrightarrow> \<not> py_startswith d ''3278''"
  using py_startswith_shorter[of d "''IBM-TYPEWRITER''" "''3278''"] by simp

lemma ibm_enhanced_not_3278: "py_startswith d ''IBM-ENHANCED'' \<Longrightarrow> \<not> py_startswith d ''3278''"
  using py_startswith_shorter[of d "''IBM-ENHANCED''" "''3278''"] by simp

lemma ibm_typewriter_not_enhanced:
  "py_startswith d ''IBM-TYPEWRITER'' \<Longrightarrow> \<not> py_startswith d ''IBM-ENHANCED''"
  using py_startswith_shorter[of d "''IBM-TYPEWRITER''" "''IBM-ENHANCED''"] by simp

lemma get_keymap_3278: "get_keymap (''3278'' @ r) = KEYMAP_3278_TYPEWRITER"
    using py_startswith_append[of "''3278''" r] by (simp add: get_keymap_def)

lemma get_keymap_ibm_typewriter: "get_keymap (''IBM-TYPEWRITER'' @ r) = KEYMAP_IBM_TYPEWRITER"
proof -
  have t: "py_startswith (''IBM-TYPEWRITER'' @ r) ''IBM-TYPEWRITER''"
    by (rule py_startswith_append)
  show ?thesis
    unfolding get_keymap_def using t ibm_typewriter_not_3278[OF t] by (simp only: if_True if_False)
qed

lemma get_keymap_ibm_enhanced: "get_keymap (''IBM-ENHANCED'' @ r) = KEYMAP_IBM_ENHANCED"
proof -
  have e: "py_startswith (''IBM-ENHANCED'' @ r) ''IBM-ENHANCED''"
    by (rule py_startswith_append)
  have n: "\<not> py_startswith (''IBM-ENHANCED'' @ r) ''IBM-TYPEWRITER''"
    using ibm_typewriter_not_enhanced[of "''IBM-ENHANCED'' @ r"] e by blast
  show ?thesis
    unfolding get_keymap_def using e n ibm_enhanced_not_3278[OF e] by (simp only: if_True if_False)
qed

lemma get_keymap_default: "\<not> py_startswith d ''3278'' \<and> \<not> py_startswith d ''IBM-TYPEWRITER''
        \<and> \<not> py_startswith d ''IBM-ENHANCED''
       \<longrightarrow> get_keymap d = KEYMAP_3278_TYPEWRITER"
  unfolding get_keymap_def by auto

lemma get_keymap_ibm_typewriter_iff: "get_keymap d = KEYMAP_IBM_TYPEWRITER \<longleftrightarrow> py_startswith d ''IBM-TYPEWRITER''"
proof (cases "py_startswith d ''3278''")
  case True
  then show ?thesis using ibm_typewriter_not_3278[of d] by (auto simp: get_keymap_def)
next
  case False
  then show ?thesis by (auto simp: get_keymap_def)
qed

lemma get_keymap_ibm_enhanced_iff: "get_keymap d = KEYMAP_IBM_ENHANCED \<longleftrightarrow> py_startswith d ''IBM-ENHANCED''"
proof (cases "py_startswith d ''3278''")
  case True
  then show ?thesis using ibm_enhanced_not_3278[of d] by (auto simp: get_keymap_def)
next
  case False
  then show ?thesis using ibm_typewriter_not_enhanced[of d] by (auto simp: get_keymap_def)
qed

lemma get_keymap_lower_typewriter: "get_keymap ''ibm-typewriter'' = KEYMAP_3278_TYPEWRITER"
  by (simp add: get_keymap_def py_startswith_def)

lemma get_keymap_lower_enhanced: "get_keymap ''ibm-enhanced'' = KEYMAP_3278_TYPEWRITER"
  by (simp add: get_keymap_def py_startswith_def)

text \<open>
  C6. The keymap selector is a total function on strings, it has no failure value: a
  description that starts with \<open>3278\<close> gives the 3278 typewriter keymap, one that starts
  with \<open>IBM-TYPEWRITER\<close> the IBM typewriter keymap, one that starts with \<open>IBM-ENHANCED\<close>
  the IBM enhanced keymap, and every other string the 3278 typewriter keymap. The three
  prefixes exclude one another, so the order of the checks decides nothing else; the match
  is case-sensitive, the lower-case spellings fall to the default.
\<close>

theorem get_keymap_total:
  "get_keymap (''3278'' @ r) = KEYMAP_3278_TYPEWRITER
   \<and> get_keymap (''IBM-TYPEWRITER'' @ r) = KEYMAP_IBM_TYPEWRITER
   \<and> get_keymap (''IBM-ENHANCED'' @ r) = KEYMAP_IBM_ENHANCED
   \<and> (\<not> py_startswith d ''3278'' \<and> \<not> py_startswith d ''IBM-TYPEWRITER''
        \<and> \<not> py_startswith d ''IBM-ENHANCED''
       \<longrightarrow> get_keymap d = KEYMAP_3278_TYPEWRITER)
   \<and> (get_keymap d = KEYMAP_IBM_TYPEWRITER \<longleftrightarrow> py_startswith d ''IBM-TYPEWRITER'')
   \<and> (get_keymap d = KEYMAP_IBM_ENHANCED \<longleftrightarrow> py_startswith d ''IBM-ENHANCED'')
   \<and> get_keymap ''ibm-typewriter'' = KEYMAP_3278_TYPEWRITER
   \<and> get_keymap ''ibm-enhanced'' = KEYMAP_3278_TYPEWRITER"
  by (intro conjI)
     (rule get_keymap_3278 get_keymap_ibm_typewriter get_keymap_ibm_enhanced get_keymap_default
        get_keymap_ibm_typewriter_iff get_keymap_ibm_enhanced_iff get_keymap_lower_typewriter
        get_keymap_lower_enhanced)+

theorem get_keymap_total_witness:
  "\<not> py_startswith ''5250'' ''3278'' \<and> \<not> py_startswith ''5250'' ''IBM-TYPEWRITER''
   \<and> \<not> py_startswith ''5250'' ''IBM-ENHANCED''
   \<and> get_keymap ''5250'' = KEYMAP_3278_TYPEWRITER"
proof -
  have h: "\<not> py_startswith ''5250'' ''3278'' \<and> \<not> py_startswith ''5250'' ''IBM-TYPEWRITER''
   \<and> \<not> py_startswith ''5250'' ''IBM-ENHANCED''"
    by (simp add: py_startswith_def)
  note t = get_keymap_total[where d = "''5250''" and r = "[]",
             THEN conjunct2, THEN conjunct2, THEN conjunct2, THEN conjunct1, rule_format, OF h]
  show ?thesis using h t by simp
qed

section \<open>The encoding validator: claim C7\<close>

lemma get_character_encoding_found:
  "codecs_lookup name = Inr codec
     \<Longrightarrow> get_character_encoding codecs_lookup name = ([Call (Codecs_lookup name)], Inr name)"
  by (simp add: get_character_encoding_def)

lemma get_character_encoding_lookup_error:
  "codecs_lookup name = Inl LookupError
     \<Longrightarrow> get_character_encoding codecs_lookup name
          = ([Call (Codecs_lookup name)], Inl (ArgumentTypeError (''invalid encoding: '' @ name)))"
  by (simp add: get_character_encoding_def)

lemma get_character_encoding_other:
  "codecs_lookup name = Inl e \<Longrightarrow> e \<noteq> LookupError
     \<Longrightarrow> get_character_encoding codecs_lookup name = ([Call (Codecs_lookup name)], Inl e)"
  by (cases e) (simp_all add: get_character_encoding_def)

lemma get_character_encoding_raises:
  "codecs_lookup name = Inl e
     \<Longrightarrow> \<exists>e'. get_character_encoding codecs_lookup name = ([Call (Codecs_lookup name)], Inl e')"
  by (cases e) (simp_all add: get_character_encoding_def)

lemma get_character_encoding_result:
  assumes "snd (get_character_encoding codecs_lookup name) = Inr name'"
  shows "name' = name"
proof (cases "codecs_lookup name")
  case (Inl e)
  then show ?thesis using get_character_encoding_raises[of codecs_lookup name e] assms by auto
next
  case (Inr c)
  then show ?thesis using get_character_encoding_found[of codecs_lookup name c] assms by simp
qed

lemma example_registry_nul:
  "example_registry [CHR ''a'', CHR 0x00, CHR ''b''] = Inl (ValueError ''embedded null character'')"
  by (simp add: example_registry_def)

text \<open>
  C7, as the spec has it, fails: the validator turns a failed lookup into the argument
  type error only when the lookup raised \<open>LookupError\<close>. On a name with a NUL character the
  lookup fails with \<open>ValueError\<close>, and the validator raises that \<open>ValueError\<close>, not the
  error that names the encoding.
\<close>

theorem get_character_encoding_valid_counterexample:
  "example_registry [CHR ''a'', CHR 0x00, CHR ''b''] = Inl (ValueError ''embedded null character'')
   \<and> get_character_encoding example_registry [CHR ''a'', CHR 0x00, CHR ''b'']
       = ([Call (Codecs_lookup [CHR ''a'', CHR 0x00, CHR ''b''])],
          Inl (ValueError ''embedded null character''))
   \<and> snd (get_character_encoding example_registry [CHR ''a'', CHR 0x00, CHR ''b''])
       \<noteq> Inl (ArgumentTypeError (''invalid encoding: '' @ [CHR ''a'', CHR 0x00, CHR ''b'']))"
  using get_character_encoding_other
          [of example_registry "[CHR ''a'', CHR 0x00, CHR ''b'']"
             "ValueError ''embedded null character''"]
  by (simp add: example_registry_nul)

text \<open>
  C7, amended. When the registry knows the name, the validator returns the name
  unchanged; when the lookup raises \<open>LookupError\<close>, it raises the argument type error whose
  message names the encoding; when the lookup raises any other exception, it raises that
  exception unchanged and returns nothing. Its only effect is the one lookup. Whatever
  name it returns is the name it was given, so validating an accepted name again gives
  the same outcome.
\<close>

theorem get_character_encoding_valid:
  "(codecs_lookup name = Inr codec
      \<longrightarrow> get_character_encoding codecs_lookup name = ([Call (Codecs_lookup name)], Inr name))
   \<and> (codecs_lookup name = Inl LookupError
      \<longrightarrow> get_character_encoding codecs_lookup name
            = ([Call (Codecs_lookup name)], Inl (ArgumentTypeError (''invalid encoding: '' @ name))))
   \<and> (codecs_lookup name = Inl e \<and> e \<noteq> LookupError
      \<longrightarrow> get_character_encoding codecs_lookup name = ([Call (Codecs_lookup name)], Inl e))
   \<and> (\<forall>name'. snd (get_character_encoding codecs_lookup name) = Inr name'
      \<longrightarrow> name' = name
          \<and> (\<exists>codec'. codecs_lookup name = Inr codec')
          \<and> get_character_encoding codecs_lookup name'
              = get_character_encoding codecs_lookup name)"
proof (intro conjI impI allI)
  assume "codecs_lookup name = Inr codec"
  then show "get_character_encoding codecs_lookup name = ([Call (Codecs_lookup name)], Inr name)"
    by (rule get_character_encoding_found)
next
  assume "codecs_lookup name = Inl LookupError"
  then show "get_character_encoding codecs_lookup name
            = ([Call (Codecs_lookup name)], Inl (ArgumentTypeError (''invalid encoding: '' @ name)))"
    by (rule get_character_encoding_lookup_error)
next
  assume "codecs_lookup name = Inl e \<and> e \<noteq> LookupError"
  then show "get_character_encoding codecs_lookup name = ([Call (Codecs_lookup name)], Inl e)"
    using get_character_encoding_other[of codecs_lookup name e] by simp
next
  fix name'
  assume "snd (get_character_encoding codecs_lookup name) = Inr name'"
  then show "name' = name" by (rule get_character_encoding_result)
next
  fix name'
  assume a: "snd (get_character_encoding codecs_lookup name) = Inr name'"
  show "\<exists>codec'. codecs_lookup name = Inr codec'"
  proof (cases "codecs_lookup name")
    case (Inl e)
    then show ?thesis using get_character_encoding_raises[of codecs_lookup name e] a by auto
  next
    case (Inr c)
    then show ?thesis by simp
  qed
next
  fix name'
  assume "snd (get_character_encoding codecs_lookup name) = Inr name'"
  then have "name' = name" by (rule get_character_encoding_result)
  then show "get_character_encoding codecs_lookup name'
              = get_character_encoding codecs_lookup name" by simp
qed

theorem get_character_encoding_valid_witness:
  "example_registry ''ibm037'' = Inr ()
   \<and> get_character_encoding example_registry ''ibm037''
       = ([Call (Codecs_lookup ''ibm037'')], Inr ''ibm037'')
   \<and> example_registry ''not-a-real-encoding'' = Inl LookupError
   \<and> get_character_encoding example_registry ''not-a-real-encoding''
       = ([Call (Codecs_lookup ''not-a-real-encoding'')],
          Inl (ArgumentTypeError ''invalid encoding: not-a-real-encoding''))
   \<and> example_registry [CHR ''a'', CHR 0x00, CHR ''b''] = Inl (ValueError ''embedded null character'')
   \<and> ValueError ''embedded null character'' \<noteq> LookupError
   \<and> get_character_encoding example_registry [CHR ''a'', CHR 0x00, CHR ''b'']
       = ([Call (Codecs_lookup [CHR ''a'', CHR 0x00, CHR ''b''])],
          Inl (ValueError ''embedded null character''))
   \<and> snd (get_character_encoding example_registry ''ibm037'') = Inr ''ibm037''
   \<and> (\<exists>codec'. example_registry ''ibm037'' = Inr codec')"
proof -
  have h1: "example_registry ''ibm037'' = Inr ()" by (simp add: example_registry_def)
  have h2: "example_registry ''not-a-real-encoding'' = Inl LookupError"
    by (simp add: example_registry_def)
  have h3: "example_registry [CHR ''a'', CHR 0x00, CHR ''b''] = Inl (ValueError ''embedded null character'')
            \<and> ValueError ''embedded null character'' \<noteq> LookupError"
    by (simp add: example_registry_nul)
  note c1 = get_character_encoding_valid
      [where codecs_lookup = example_registry and name = "''ibm037''" and codec = "()",
       THEN conjunct1, rule_format, OF h1]
  have c2: "get_character_encoding example_registry ''not-a-real-encoding''
       = ([Call (Codecs_lookup ''not-a-real-encoding'')],
          Inl (ArgumentTypeError ''invalid encoding: not-a-real-encoding''))"
    using get_character_encoding_valid
      [where codecs_lookup = example_registry and name = "''not-a-real-encoding''",
       THEN conjunct2, THEN conjunct1, rule_format, OF h2]
    by simp
  note c3 = get_character_encoding_valid
      [where codecs_lookup = example_registry and name = "[CHR ''a'', CHR 0x00, CHR ''b'']"
         and e = "ValueError ''embedded null character''",
       THEN conjunct2, THEN conjunct2, THEN conjunct1, rule_format, OF h3]
  have r: "snd (get_character_encoding example_registry ''ibm037'') = Inr ''ibm037''"
    using c1 by simp
  note c4 = get_character_encoding_valid
      [where codecs_lookup = example_registry and name = "''ibm037''",
       THEN conjunct2, THEN conjunct2, THEN conjunct2, rule_format, OF r, THEN conjunct2,
       THEN conjunct1]
  show ?thesis using h1 h2 h3 c1 c2 c3 r c4 by simp
qed

section \<open>The lifecycle manager: claim C4\<close>

lemma signal_handler_cleared: "CONTROLLER (snd (signal_handler n f g)) = None"
  by (simp add: signal_handler_def split: option.splits)

lemma signal_handler_stops:
  "stops (fst (signal_handler n f g)) = (case CONTROLLER g of None \<Rightarrow> [] | Some c \<Rightarrow> [c])"
  by (simp add: signal_handler_def stops_def split: option.splits)

lemma signal_handler_idle:
  "CONTROLLER g = None \<Longrightarrow> signal_handler n f g = ([Log INFO ''Stopping controller...''], g)"
  by (simp add: signal_handler_def)

lemma stops_append: "stops (t @ t') = stops t @ stops t'"
  by (simp add: stops_def)

lemma stops_Log: "stops (Log l m # t) = stops t"
  by (simp add: stops_def)

lemma stops_Stop: "stops (Call (Stop c) # t) = c # stops t"
  by (simp add: stops_def)

lemma signal_handlers_Cons:
  "signal_handlers (n # ns) g =
     (fst (signal_handler n () g) @ fst (signal_handlers ns (snd (signal_handler n () g))),
      snd (signal_handlers ns (snd (signal_handler n () g))))"
  by (simp add: split_beta)

lemma signal_handlers_idle:
  "CONTROLLER g = None \<Longrightarrow> stops (fst (signal_handlers ns g)) = [] \<and> snd (signal_handlers ns g) = g"
proof (induction ns)
  case Nil
  then show ?case by (simp add: stops_def)
next
  case (Cons n ns)
  have h: "signal_handler n () g = ([Log INFO ''Stopping controller...''], g)"
    using Cons.prems by (rule signal_handler_idle)
  show ?case
    unfolding signal_handlers_Cons h using Cons.IH[OF Cons.prems]
    by (simp add: stops_Log)
qed

lemma signal_handlers_stops:
  "stops (fst (signal_handlers ns g))
     = (case CONTROLLER g of None \<Rightarrow> [] | Some c \<Rightarrow> if ns = [] then [] else [c])"
proof (cases ns)
  case Nil
  then show ?thesis by (simp add: stops_def split: option.splits)
next
  case (Cons n ms)
  have c: "CONTROLLER (snd (signal_handler n () g)) = None" by (rule signal_handler_cleared)
  show ?thesis
    unfolding Cons signal_handlers_Cons
    using signal_handlers_idle[OF c, of ms] signal_handler_stops[of n "()" g]
    by (simp add: stops_append split: option.splits)
qed

lemma signal_handlers_final:
  "CONTROLLER (snd (signal_handlers ns g)) = (if ns = [] then CONTROLLER g else None)"
proof (cases ns)
  case Nil
  then show ?thesis by simp
next
  case (Cons n ms)
  have c: "CONTROLLER (snd (signal_handler n () g)) = None" by (rule signal_handler_cleared)
  show ?thesis
    unfolding Cons signal_handlers_Cons using signal_handlers_idle[OF c, of ms] c by simp
qed

text \<open>
  C4. With a controller held, the handler logs, invokes \<open>stop\<close> on it and clears the
  reference; with none held it only logs and leaves the state as it is. Two deliveries
  in succession, and any number of them, invoke \<open>stop\<close> at most once, and only on the
  controller that was held; before a controller is started the handler changes nothing;
  after a delivery the reference is cleared, and deliveries never set it again.
\<close>

theorem signal_handler_stops_once:
  "(CONTROLLER g = Some c
      \<longrightarrow> signal_handler n f g
          = ([Log INFO ''Stopping controller...'', Call (Stop c)], g\<lparr>CONTROLLER := None\<rparr>))
   \<and> (CONTROLLER g = None
      \<longrightarrow> signal_handler n f g = ([Log INFO ''Stopping controller...''], g))
   \<and> length (stops (fst (signal_handlers [n1, n2] g))) \<le> 1
   \<and> length (stops (fst (signal_handlers ns g))) \<le> 1
   \<and> (\<forall>c' \<in> set (stops (fst (signal_handlers ns g))). CONTROLLER g = Some c')
   \<and> signal_handler n f (initial_globals :: 'c globals)
       = ([Log INFO ''Stopping controller...''], initial_globals)
   \<and> CONTROLLER (snd (signal_handler n f g)) = None
   \<and> (CONTROLLER g = None \<longrightarrow> CONTROLLER (snd (signal_handlers ns g)) = None)
   \<and> (ns \<noteq> [] \<longrightarrow> CONTROLLER (snd (signal_handlers ns g)) = None)"
proof (intro conjI impI)
  assume "CONTROLLER g = Some c"
  then show "signal_handler n f g
          = ([Log INFO ''Stopping controller...'', Call (Stop c)], g\<lparr>CONTROLLER := None\<rparr>)"
    by (simp add: signal_handler_def)
next
  assume "CONTROLLER g = None"
  then show "signal_handler n f g = ([Log INFO ''Stopping controller...''], g)"
    by (rule signal_handler_idle)
next
  show "length (stops (fst (signal_handlers [n1, n2] g))) \<le> 1"
    unfolding signal_handlers_stops by (simp split: option.splits)
next
  show "length (stops (fst (signal_handlers ns g))) \<le> 1"
    unfolding signal_handlers_stops by (simp split: option.splits)
next
  show "\<forall>c' \<in> set (stops (fst (signal_handlers ns g))). CONTROLLER g = Some c'"
    unfolding signal_handlers_stops by (simp split: option.splits)
next
  show "signal_handler n f (initial_globals :: 'c globals)
       = ([Log INFO ''Stopping controller...''], initial_globals)"
    by (simp add: signal_handler_def initial_globals_def)
next
  show "CONTROLLER (snd (signal_handler n f g)) = None" by (rule signal_handler_cleared)
next
  assume "CONTROLLER g = None"
  then show "CONTROLLER (snd (signal_handlers ns g)) = None"
    by (simp add: signal_handlers_final)
next
  assume "ns \<noteq> []"
  then show "CONTROLLER (snd (signal_handlers ns g)) = None"
    by (simp add: signal_handlers_final)
qed

theorem signal_handler_stops_once_witness:
  "CONTROLLER \<lparr>CONTROLLER = Some (7::nat)\<rparr> = Some 7
   \<and> signal_handler (2::nat) () \<lparr>CONTROLLER = Some (7::nat)\<rparr>
       = ([Log INFO ''Stopping controller...'', Call (Stop 7)], \<lparr>CONTROLLER = None\<rparr>)
   \<and> CONTROLLER \<lparr>CONTROLLER = (None :: nat option)\<rparr> = None
   \<and> signal_handler (15::nat) () \<lparr>CONTROLLER = (None :: nat option)\<rparr>
       = ([Log INFO ''Stopping controller...''], \<lparr>CONTROLLER = None\<rparr>)
   \<and> signal_handlers [2, 15 :: nat] \<lparr>CONTROLLER = Some (7::nat)\<rparr>
       = ([Log INFO ''Stopping controller...'', Call (Stop 7),
           Log INFO ''Stopping controller...''], \<lparr>CONTROLLER = None\<rparr>)"
proof -
  have c1: "signal_handler (2::nat) () \<lparr>CONTROLLER = Some (7::nat)\<rparr>
       = ([Log INFO ''Stopping controller...'', Call (Stop 7)], \<lparr>CONTROLLER = None\<rparr>)"
    using signal_handler_stops_once
        [where g = "\<lparr>CONTROLLER = Some (7::nat)\<rparr>" and c = 7 and n = "2::nat" and f = "()",
         THEN conjunct1]
    by simp
  have c2: "signal_handler (15::nat) () \<lparr>CONTROLLER = (None :: nat option)\<rparr>
       = ([Log INFO ''Stopping controller...''], \<lparr>CONTROLLER = None\<rparr>)"
    using signal_handler_stops_once
        [where g = "\<lparr>CONTROLLER = (None :: nat option)\<rparr>" and n = "15::nat" and f = "()",
         THEN conjunct2, THEN conjunct1]
    by simp
  have c3: "signal_handlers [2, 15 :: nat] \<lparr>CONTROLLER = Some (7::nat)\<rparr>
       = ([Log INFO ''Stopping controller...'', Call (Stop 7),
           Log INFO ''Stopping controller...''], \<lparr>CONTROLLER = None\<rparr>)"
    using c1 c2 by simp
  show ?thesis using c1 c2 c3 by simp
qed

section \<open>The device identifier: claim C1\<close>

lemma bind_call:
  "bind (call c r) f =
     (case r of Inl e \<Rightarrow> ([Call c], Inl e) | Inr v \<Rightarrow> (Call c # fst (f v), snd (f v)))"
  by (simp add: bind_def call_def split: sum.splits prod.splits)

lemma bind_logger_info: "bind (logger_info m) f = (Log INFO m # fst (f ()), snd (f ()))"
  by (simp add: bind_def logger_info_def split: prod.splits)

lemma bind_ret: "bind (ret v) f = f v"
  by (simp add: bind_def ret_def split: prod.splits)

lemma create_device_unfold:
  "create_device dev args i a pr =
     (case get_ids dev i a of
        Inl e \<Rightarrow> ([Call (Get_ids i a)], Inl e)
      | Inr (tid, xid) \<Rightarrow>
          if type tid \<noteq> CUT
          then ([Call (Get_ids i a), Log INFO (''Terminal ID = '' @ str_terminal_id dev tid)],
                Inl (UnsupportedDeviceError ''Only CUT type terminals are supported''))
          else (Call (Get_ids i a) # Log INFO (''Terminal ID = '' @ str_terminal_id dev tid)
                  # fst (create_device_cut dev i a tid xid),
                snd (create_device_cut dev i a tid xid)))"
proof (cases "get_ids dev i a")
  case (Inl e)
  show ?thesis
    unfolding create_device_def Inl by (simp only: bind_call sum.case)
next
  case (Inr p)
  obtain tid xid where p: "p = (tid, xid)" by (cases p)
  show ?thesis
  proof (cases "type tid = CUT")
    case True
    show ?thesis
      unfolding create_device_def Inr p
      by (simp only: bind_call[where r = "Inr (tid, xid)"] sum.case prod.case
            bind_logger_info[where m = "''Terminal ID = '' @ str_terminal_id dev tid"]
            create_device_cut_def True simp_thms if_False fst_conv snd_conv)
  next
    case False
    show ?thesis
      unfolding create_device_def Inr p
      by (simp only: bind_call[where r = "Inr (tid, xid)"] sum.case prod.case
            bind_logger_info[where m = "''Terminal ID = '' @ str_terminal_id dev tid"]
            False simp_thms if_True raise_def fst_conv snd_conv)
  qed
qed

lemma create_device_cut_kbd_fail:
  assumes "get_keyboard_description dev tid xid = Inl e"
  shows "snd (create_device_cut dev i a tid xid) = Inl e"
    and "Call New_Terminal \<notin> set (fst (create_device_cut dev i a tid xid))"
  using assms
  by (cases xid; simp add: create_device_cut_def bind_call bind_logger_info bind_ret)+

lemma create_device_cut_features_fail:
  assumes "get_keyboard_description dev tid xid = Inr kd" and "get_features dev i a = Inl e"
  shows "snd (create_device_cut dev i a tid xid) = Inl e"
    and "Call New_Terminal \<notin> set (fst (create_device_cut dev i a tid xid))"
  using assms
  by (cases xid; simp add: create_device_cut_def bind_call bind_logger_info bind_ret)+

lemma create_device_cut_ok:
  assumes "get_keyboard_description dev tid xid = Inr kd" and "get_features dev i a = Inr f"
  shows "create_device_cut dev i a tid xid =
     (Log INFO (''Extended ID = '' @ (case xid of None \<Rightarrow> ''None'' | Some x \<Rightarrow> x))
        # (case xid of None \<Rightarrow> []
           | Some x \<Rightarrow> [Log INFO (''Model = IBM '' @ py_slice 2 6 x @ '' or equivalent'')])
        @ [Call Get_keyboard_description, Log INFO (''Keyboard = '' @ kd),
           Call (Get_features i a), Log INFO (''Features = '' @ str_features dev f),
           Log INFO (''Keymap = '' @ keymap_name dev (get_keymap kd)), Call New_Terminal],
      Inr (Terminal i a tid xid f (get_keymap kd)))"
  using assms
  by (cases xid; simp add: create_device_cut_def bind_call bind_logger_info bind_ret Let_def;
      simp add: call_def)

lemma create_device_not_cut:
  assumes "get_ids dev i a = Inr (tid, xid)" and "type tid \<noteq> CUT"
  shows "create_device dev args i a pr
           = ([Call (Get_ids i a), Log INFO (''Terminal ID = '' @ str_terminal_id dev tid)],
              Inl (UnsupportedDeviceError ''Only CUT type terminals are supported''))"
  unfolding create_device_unfold using assms by simp

lemma create_device_ids_fail:
  assumes "get_ids dev i a = Inl e"
  shows "create_device dev args i a pr = ([Call (Get_ids i a)], Inl e)"
  unfolding create_device_unfold using assms by simp

lemma create_device_when_cut:
  assumes "get_ids dev i a = Inr (tid, xid)" and "type tid = CUT"
  shows "create_device dev args i a pr
           = (Call (Get_ids i a) # Log INFO (''Terminal ID = '' @ str_terminal_id dev tid)
                # fst (create_device_cut dev i a tid xid),
              snd (create_device_cut dev i a tid xid))"
  unfolding create_device_unfold using assms by simp

lemma create_device_cut_result:
  assumes "snd (create_device_cut dev i a tid xid) = Inr t"
  shows "\<exists>kd f. get_keyboard_description dev tid xid = Inr kd \<and> get_features dev i a = Inr f
           \<and> t = Terminal i a tid xid f (get_keymap kd)"
proof (cases "get_keyboard_description dev tid xid")
  case (Inl e)
  then show ?thesis using create_device_cut_kbd_fail(1)[OF Inl, of i a] assms by simp
next
  case kd: (Inr kd)
  show ?thesis
  proof (cases "get_features dev i a")
    case (Inl e)
    then show ?thesis using create_device_cut_features_fail(1)[OF kd Inl] assms by simp
  next
    case (Inr f)
    then show ?thesis using create_device_cut_ok[OF kd Inr] assms kd by simp
  qed
qed

lemma create_device_result:
  assumes "snd (create_device dev args i a pr) = Inr t"
  shows "\<exists>tid xid kd f. get_ids dev i a = Inr (tid, xid) \<and> type tid = CUT
           \<and> get_keyboard_description dev tid xid = Inr kd \<and> get_features dev i a = Inr f
           \<and> t = Terminal i a tid xid f (get_keymap kd)"
proof (cases "get_ids dev i a")
  case (Inl e)
  then show ?thesis using create_device_ids_fail[OF Inl, of args pr] assms by simp
next
  case (Inr p)
  obtain tid xid where p: "p = (tid, xid)" by (cases p)
  have ids: "get_ids dev i a = Inr (tid, xid)" using Inr p by simp
  show ?thesis
  proof (cases "type tid = CUT")
    case False
    then show ?thesis using create_device_not_cut[OF ids False, of args pr] assms by simp
  next
    case True
    have "snd (create_device_cut dev i a tid xid) = Inr t"
      using create_device_when_cut[OF ids True, of args pr] assms by simp
    then show ?thesis using create_device_cut_result[of dev i a tid xid t] ids True by blast
  qed
qed

lemma create_device_new_terminal:
  assumes "Call New_Terminal \<in> set (fst (create_device dev args i a pr))"
  shows "\<exists>tid xid. get_ids dev i a = Inr (tid, xid) \<and> type tid = CUT"
proof (cases "get_ids dev i a")
  case (Inl e)
  then show ?thesis using create_device_ids_fail[OF Inl, of args pr] assms by simp
next
  case (Inr p)
  obtain tid xid where p: "p = (tid, xid)" by (cases p)
  have ids: "get_ids dev i a = Inr (tid, xid)" using Inr p by simp
  show ?thesis
  proof (cases "type tid = CUT")
    case False
    then show ?thesis using create_device_not_cut[OF ids False, of args pr] assms by simp
  next
    case True
    then show ?thesis using ids by blast
  qed
qed

lemma example_get_ids:
  "get_ids (example_device_module ty) () (0::nat) = Inr (\<lparr>type = ty\<rparr>, Some ''c1348300'')"
  by (simp add: example_device_module_def)

lemma create_device_example_cut:
  "create_device (example_device_module CUT) (tn3270_args ''host'' None) () (0::nat) ()
     = ([Call (Get_ids () 0), Log INFO ''Terminal ID = <TerminalId>'',
         Log INFO ''Extended ID = c1348300'', Log INFO ''Model = IBM 3483 or equivalent'',
         Call Get_keyboard_description, Log INFO ''Keyboard = IBM-TYPEWRITER'',
         Call (Get_features () 0), Log INFO ''Features = {}'', Log INFO ''Keymap = keymap'',
         Call New_Terminal],
        Inr (Terminal () 0 \<lparr>type = CUT\<rparr> (Some ''c1348300'') () KEYMAP_IBM_TYPEWRITER))"
proof -
  have k: "get_keyboard_description (example_device_module CUT) \<lparr>type = CUT\<rparr> (Some ''c1348300'')
             = Inr ''IBM-TYPEWRITER''"
    by (simp add: example_device_module_def)
  have f: "get_features (example_device_module CUT) () (0::nat) = Inr ()"
    by (simp add: example_device_module_def)
  have km: "get_keymap ''IBM-TYPEWRITER'' = KEYMAP_IBM_TYPEWRITER"
    by (simp add: get_keymap_def py_startswith_def)
  have sl: "py_slice 2 6 ''c1348300'' = ''3483''" by code_simp
  have c: "create_device_cut (example_device_module CUT) () (0::nat) \<lparr>type = CUT\<rparr> (Some ''c1348300'')
     = ([Log INFO ''Extended ID = c1348300'', Log INFO ''Model = IBM 3483 or equivalent'',
         Call Get_keyboard_description, Log INFO ''Keyboard = IBM-TYPEWRITER'',
         Call (Get_features () 0), Log INFO ''Features = {}'', Log INFO ''Keymap = keymap'',
         Call New_Terminal],
        Inr (Terminal () 0 \<lparr>type = CUT\<rparr> (Some ''c1348300'') () KEYMAP_IBM_TYPEWRITER))"
    unfolding create_device_cut_ok[OF k f] km
    by (simp add: example_device_module_def sl)
  show ?thesis
    using create_device_when_cut[OF example_get_ids, of CUT "tn3270_args ''host'' None" "()"] c
    by (simp add: example_device_module_def)
qed

text \<open>
  C1. When the identifier query answers with a terminal type other than CUT,
  \<open>create_device\<close> raises the unsupported device error right after logging the identifier:
  what happened is the identifier query and that log line, and no feature query. Whenever
  \<open>create_device\<close> returns a terminal, and whenever the terminal constructor is called at
  all, the identifier queried was of type CUT.
\<close>

theorem create_device_unsupported:
  "(get_ids dev i a = Inr (tid, xid) \<and> type tid \<noteq> CUT
      \<longrightarrow> create_device dev args i a pr
            = ([Call (Get_ids i a), Log INFO (''Terminal ID = '' @ str_terminal_id dev tid)],
               Inl (UnsupportedDeviceError ''Only CUT type terminals are supported''))
          \<and> (\<forall>i' a'. Call (Get_features i' a') \<notin> set (fst (create_device dev args i a pr))))
   \<and> (\<forall>t. snd (create_device dev args i a pr) = Inr t
      \<longrightarrow> (\<exists>tid' xid' f k. get_ids dev i a = Inr (tid', xid') \<and> type tid' = CUT
             \<and> t = Terminal i a tid' xid' f k))
   \<and> (Call New_Terminal \<in> set (fst (create_device dev args i a pr))
      \<longrightarrow> (\<exists>tid' xid'. get_ids dev i a = Inr (tid', xid') \<and> type tid' = CUT))"
proof (intro conjI impI allI)
  assume h: "get_ids dev i a = Inr (tid, xid) \<and> type tid \<noteq> CUT"
  then show "create_device dev args i a pr
            = ([Call (Get_ids i a), Log INFO (''Terminal ID = '' @ str_terminal_id dev tid)],
               Inl (UnsupportedDeviceError ''Only CUT type terminals are supported''))"
    using create_device_not_cut[of dev i a tid xid args pr] by simp
next
  fix i' a'
  assume h: "get_ids dev i a = Inr (tid, xid) \<and> type tid \<noteq> CUT"
  then show "Call (Get_features i' a') \<notin> set (fst (create_device dev args i a pr))"
    using create_device_not_cut[of dev i a tid xid args pr] by simp
next
  fix t
  assume "snd (create_device dev args i a pr) = Inr t"
  then show "\<exists>tid' xid' f k. get_ids dev i a = Inr (tid', xid') \<and> type tid' = CUT
             \<and> t = Terminal i a tid' xid' f k"
    using create_device_result[of dev args i a pr t] by blast
next
  assume "Call New_Terminal \<in> set (fst (create_device dev args i a pr))"
  then show "\<exists>tid' xid'. get_ids dev i a = Inr (tid', xid') \<and> type tid' = CUT"
    by (rule create_device_new_terminal)
qed

theorem create_device_unsupported_witness:
  "get_ids (example_device_module DFT) () (0::nat) = Inr (\<lparr>type = DFT\<rparr>, Some ''c1348300'')
   \<and> type \<lparr>type = DFT\<rparr> \<noteq> CUT
   \<and> create_device (example_device_module DFT) (tn3270_args ''host'' None) () (0::nat) ()
       = ([Call (Get_ids () 0), Log INFO ''Terminal ID = <TerminalId>''],
          Inl (UnsupportedDeviceError ''Only CUT type terminals are supported''))
   \<and> (\<forall>i' a'. Call (Get_features i' a')
         \<notin> set (fst (create_device (example_device_module DFT) (tn3270_args ''host'' None)
                       () (0::nat) ())))"
proof -
  have h: "get_ids (example_device_module DFT) () (0::nat) = Inr (\<lparr>type = DFT\<rparr>, Some ''c1348300'')
             \<and> type \<lparr>type = DFT\<rparr> \<noteq> CUT"
    by (simp add: example_get_ids)
  have s: "str_terminal_id (example_device_module DFT) \<lparr>type = DFT\<rparr> = ''<TerminalId>''"
    by (simp add: example_device_module_def)
  note t = create_device_unsupported
      [where dev = "example_device_module DFT" and i = "()" and a = "0::nat"
         and tid = "\<lparr>type = DFT\<rparr>" and xid = "Some ''c1348300''"
         and args = "tn3270_args ''host'' None" and pr = "()",
       THEN conjunct1, rule_format, OF h]
  show ?thesis using h t s by simp
qed

section \<open>The session factory: claim C5\<close>

text \<open>
  C5. For the emulator \<open>tn3270\<close> the factory constructs a TN3270 session from the device,
  the host, the port, the LU names and the encoding of the arguments. For \<open>vt100\<close> on a
  POSIX platform it constructs a VT100 session from the device and the command line. In
  every other case, also for \<open>vt100\<close> on a platform without it, it raises the value error
  \<open>Unsupported emulator\<close> and constructs nothing.
\<close>

theorem create_session_dispatch:
  "(emulator args = ''tn3270''
      \<longrightarrow> create_session os_name args device
          = ([Call (TN3270Session device (host args) (port args) (device_names args)
                      (character_encoding args))],
             Inr (TN3270Session device (host args) (port args) (device_names args)
                      (character_encoding args))))
   \<and> (emulator args = ''vt100'' \<and> os_name = ''posix''
      \<longrightarrow> create_session os_name args device
          = ([Call (VT100Session device (command args # command_args args))],
             Inr (VT100Session device (command args # command_args args))))
   \<and> (emulator args \<noteq> ''tn3270'' \<and> (emulator args \<noteq> ''vt100'' \<or> os_name \<noteq> ''posix'')
      \<longrightarrow> create_session os_name args device = ([], Inl (ValueError ''Unsupported emulator'')))
   \<and> (emulator args = ''vt100'' \<and> \<not> IS_VT100_AVAILABLE os_name
      \<longrightarrow> create_session os_name args device = ([], Inl (ValueError ''Unsupported emulator'')))
   \<and> (\<forall>d c. Call (VT100Session d c) \<in> set (fst (create_session os_name args device))
      \<longrightarrow> IS_VT100_AVAILABLE os_name)"
  by (auto simp: create_session_def IS_VT100_AVAILABLE_def call_def raise_def Let_def)

theorem create_session_dispatch_witness:
  "emulator (vt100_args ''/bin/sh'' [''-l'']) = ''vt100'' \<and> \<not> IS_VT100_AVAILABLE ''nt''
   \<and> create_session ''nt'' (vt100_args ''/bin/sh'' [''-l'']) (0::nat)
       = ([], Inl (ValueError ''Unsupported emulator''))
   \<and> ''posix'' = ''posix''
   \<and> create_session ''posix'' (vt100_args ''/bin/sh'' [''-l'']) (0::nat)
       = ([Call (VT100Session 0 [''/bin/sh'', ''-l''])], Inr (VT100Session 0 [''/bin/sh'', ''-l'']))
   \<and> emulator (tn3270_args ''mvs'' (Some 23)) = ''tn3270''
   \<and> create_session ''nt'' (tn3270_args ''mvs'' (Some 23)) (0::nat)
       = ([Call (TN3270Session 0 ''mvs'' (Some 23) None ''ibm037'')],
          Inr (TN3270Session 0 ''mvs'' (Some 23) None ''ibm037''))"
proof -
  have h1: "emulator (vt100_args ''/bin/sh'' [''-l'']) = ''vt100'' \<and> \<not> IS_VT100_AVAILABLE ''nt''"
    by (simp add: vt100_args_def IS_VT100_AVAILABLE_def)
  have h2: "emulator (vt100_args ''/bin/sh'' [''-l'']) = ''vt100'' \<and> ''posix'' = ''posix''"
    by (simp add: vt100_args_def)
  have h3: "emulator (tn3270_args ''mvs'' (Some 23)) = ''tn3270''"
    by (simp add: tn3270_args_def)
  note c1 = create_session_dispatch
      [where args = "vt100_args ''/bin/sh'' [''-l'']" and os_name = "''nt''" and device = "0::nat",
       THEN conjunct2, THEN conjunct2, THEN conjunct2, THEN conjunct1, rule_format, OF h1]
  note c2 = create_session_dispatch
      [where args = "vt100_args ''/bin/sh'' [''-l'']" and os_name = "''posix''" and device = "0::nat",
       THEN conjunct2, THEN conjunct1, rule_format, OF h2]
  note c3 = create_session_dispatch
      [where args = "tn3270_args ''mvs'' (Some 23)" and os_name = "''nt''" and device = "0::nat",
       THEN conjunct1, rule_format, OF h3]
  have v: "command (vt100_args ''/bin/sh'' [''-l'']) # command_args (vt100_args ''/bin/sh'' [''-l''])
             = [''/bin/sh'', ''-l'']"
    by (simp add: vt100_args_def)
  have t: "host (tn3270_args ''mvs'' (Some 23)) = ''mvs''
           \<and> port (tn3270_args ''mvs'' (Some 23)) = Some 23
           \<and> device_names (tn3270_args ''mvs'' (Some 23)) = None
           \<and> character_encoding (tn3270_args ''mvs'' (Some 23)) = ''ibm037''"
    by (simp add: tn3270_args_def)
  show ?thesis using h1 h3 c1 c2[unfolded v] c3 t by simp
qed

end
